theory Spec2Isabelle
  imports Complex_Main
begin

section \<open>JavaScript values\<close>

text \<open>
  \<^verbatim>\<open>src/Tween.js\<close> is JavaScript, so the values it moves around are dynamically typed.
  A JavaScript number is a finite value, an infinity or NaN. Finite doubles are idealised
  as real numbers (no rounding, no negative zero); the infinities and NaN are kept,
  because the code divides by a duration and adds to a field that starts out undefined.
\<close>

datatype num = Fin real | PInf | NInf | NaN

datatype jsval = Undefined | Number num | Str string

fun nneg :: "num \<Rightarrow> num" where
  "nneg (Fin a) = Fin (- a)"
| "nneg PInf = NInf"
| "nneg NInf = PInf"
| "nneg NaN = NaN"

fun nadd :: "num \<Rightarrow> num \<Rightarrow> num" where
  "nadd NaN _ = NaN"
| "nadd _ NaN = NaN"
| "nadd (Fin a) (Fin b) = Fin (a + b)"
| "nadd PInf NInf = NaN"
| "nadd NInf PInf = NaN"
| "nadd PInf _ = PInf"
| "nadd NInf _ = NInf"
| "nadd (Fin a) PInf = PInf"
| "nadd (Fin a) NInf = NInf"

definition nsub :: "num \<Rightarrow> num \<Rightarrow> num" where
  "nsub a b = nadd a (nneg b)"

text \<open>The sign of a number, for the products and quotients with an infinity.\<close>

fun npos :: "num \<Rightarrow> bool" where
  "npos (Fin a) = (0 \<le> a)"
| "npos PInf = True"
| "npos NInf = False"
| "npos NaN = True"

fun nmul :: "num \<Rightarrow> num \<Rightarrow> num" where
  "nmul NaN _ = NaN"
| "nmul _ NaN = NaN"
| "nmul (Fin a) (Fin b) = Fin (a * b)"
| "nmul (Fin a) b = (if a = 0 then NaN else if (0 < a) = npos b then PInf else NInf)"
| "nmul a (Fin b) = (if b = 0 then NaN else if (0 < b) = npos a then PInf else NInf)"
| "nmul a b = (if npos a = npos b then PInf else NInf)"

fun ndiv :: "num \<Rightarrow> num \<Rightarrow> num" where
  "ndiv NaN _ = NaN"
| "ndiv _ NaN = NaN"
| "ndiv (Fin a) (Fin b) =
     (if b \<noteq> 0 then Fin (a / b)
      else if a = 0 then NaN else if 0 < a then PInf else NInf)"
| "ndiv (Fin a) _ = Fin 0"
| "ndiv a (Fin b) = (if npos a = (0 \<le> b) then PInf else NInf)"
| "ndiv _ _ = NaN"

text \<open>\<^verbatim>\<open>a >= b\<close> on numbers: false as soon as one side is NaN.\<close>

fun nge :: "num \<Rightarrow> num \<Rightarrow> bool" where
  "nge NaN _ = False"
| "nge _ NaN = False"
| "nge (Fin a) (Fin b) = (b \<le> a)"
| "nge PInf _ = True"
| "nge _ NInf = True"
| "nge _ _ = False"

text \<open>\<^verbatim>\<open>Math.min(a, b)\<close>: NaN as soon as one argument is NaN.\<close>

definition nmin :: "num \<Rightarrow> num \<Rightarrow> num" where
  "nmin a b = (if a = NaN \<or> b = NaN then NaN else if nge a b then b else a)"

text \<open>
  \<^verbatim>\<open>x | 0\<close> is ToInt32: NaN and the infinities give 0, a finite value is truncated
  towards zero and wrapped into the signed 32-bit range.
\<close>

fun to_int32 :: "num \<Rightarrow> int" where
  "to_int32 (Fin a) =
     (let t = (if 0 \<le> a then \<lfloor>a\<rfloor> else \<lceil>a\<rceil>); m = t mod 4294967296
      in if 2147483648 \<le> m then m - 4294967296 else m)"
| "to_int32 _ = 0"

text \<open>A field that is still undefined reads as NaN in arithmetic.\<close>

fun numeric :: "num option \<Rightarrow> num" where
  "numeric None = NaN"
| "numeric (Some n) = n"

subsection \<open>Decimal strings of integers\<close>

fun digits :: "nat \<Rightarrow> string" where
  "digits n =
     (if n < 10 then [''0123456789'' ! n]
      else digits (n div 10) @ [''0123456789'' ! (n mod 10)])"

declare digits.simps [simp del]

definition int_to_string :: "int \<Rightarrow> string" where
  "int_to_string k = (if k < 0 then CHR ''-'' # digits (nat (- k)) else digits (nat k))"

text \<open>\<^verbatim>\<open>[a, b, c].join(",")\<close>\<close>

fun join :: "string list \<Rightarrow> string" where
  "join [] = []"
| "join [x] = x"
| "join (x # y # ys) = x @ '','' @ join (y # ys)"

text \<open>\<^verbatim>\<open>s.indexOf(p)\<close>: the position of the first occurrence of \<open>p\<close> in \<open>s\<close>, or -1.\<close>

fun is_prefix :: "string \<Rightarrow> string \<Rightarrow> bool" where
  "is_prefix [] _ = True"
| "is_prefix (p # ps) [] = False"
| "is_prefix (p # ps) (c # cs) = (p = c \<and> is_prefix ps cs)"

fun indexOf :: "string \<Rightarrow> string \<Rightarrow> int" where
  "indexOf [] p = (if p = [] then 0 else - 1)"
| "indexOf (c # cs) p =
     (if is_prefix p (c # cs) then 0
      else (let k = indexOf cs p in if k = - 1 then - 1 else k + 1))"

section \<open>The collaborators outside the source file\<close>

text \<open>
  \<^verbatim>\<open>PLAYGROUND.Utils.ease\<close>, \<^verbatim>\<open>circWrappedDistance\<close>, \<^verbatim>\<open>circWrap\<close> and
  \<^verbatim>\<open>cq.color\<close> are called by the tween but defined elsewhere; so are the language's own
  \<^verbatim>\<open>parseFloat\<close> and the conversions between strings and numbers. They are parameters
  of the model. \<open>color\<close> returns the three channels it reads, or \<open>None\<close> when it throws.
\<close>

record ext =
  ease :: "num \<Rightarrow> string option \<Rightarrow> jsval"
  circWrappedDistance :: "jsval \<Rightarrow> jsval \<Rightarrow> jsval"
  circWrap :: "jsval \<Rightarrow> jsval"
  color :: "jsval \<Rightarrow> (jsval \<times> jsval \<times> jsval) option"
  parseFloat :: "string \<Rightarrow> num"
  str_to_num :: "string \<Rightarrow> num"
  num_to_str :: "real \<Rightarrow> string"

fun to_number :: "ext \<Rightarrow> jsval \<Rightarrow> num" where
  "to_number E Undefined = NaN"
| "to_number E (Number n) = n"
| "to_number E (Str s) = str_to_num E s"

fun to_string :: "ext \<Rightarrow> jsval \<Rightarrow> string" where
  "to_string E Undefined = ''undefined''"
| "to_string E (Number (Fin a)) = num_to_str E a"
| "to_string E (Number PInf) = ''Infinity''"
| "to_string E (Number NInf) = ''-Infinity''"
| "to_string E (Number NaN) = ''NaN''"
| "to_string E (Str s) = s"

fun is_string :: "jsval \<Rightarrow> bool" where
  "is_string (Str _) = True"
| "is_string _ = False"

text \<open>\<^verbatim>\<open>a + b\<close> concatenates as soon as one operand is a string; \<^verbatim>\<open>-\<close> and \<^verbatim>\<open>*\<close>
  always convert to numbers.\<close>

definition js_add :: "ext \<Rightarrow> jsval \<Rightarrow> jsval \<Rightarrow> jsval" where
  "js_add E a b =
     (if is_string a \<or> is_string b then Str (to_string E a @ to_string E b)
      else Number (nadd (to_number E a) (to_number E b)))"

definition js_sub :: "ext \<Rightarrow> jsval \<Rightarrow> jsval \<Rightarrow> jsval" where
  "js_sub E a b = Number (nsub (to_number E a) (to_number E b))"

definition js_mul :: "ext \<Rightarrow> jsval \<Rightarrow> jsval \<Rightarrow> jsval" where
  "js_mul E a b = Number (nmul (to_number E a) (to_number E b))"

section \<open>Actions and the tween\<close>

text \<open>
  An entry of \<^verbatim>\<open>actions\<close> is the array \<^verbatim>\<open>[properties, duration, easing]\<close>. Its first
  element is an object (the properties to change, here the list of its own keys and
  values in the order of \<^verbatim>\<open>Object.keys\<close>) or one of the strings \<^verbatim>\<open>"wait"\<close> and
  \<^verbatim>\<open>"repeat"\<close>; the arrays pushed by \<^verbatim>\<open>wait\<close>, \<^verbatim>\<open>delay\<close> and \<^verbatim>\<open>repeat\<close> have no
  third element. Durations are numbers, as the interface documents them.
\<close>

datatype props = Object "(string \<times> jsval) list" | Tag string

type_synonym action = "props \<times> real \<times> string option"

text \<open>
  \<^verbatim>\<open>next\<close> pushes, for every key, one entry onto each of \<^verbatim>\<open>before\<close>, \<^verbatim>\<open>change\<close> and
  \<^verbatim>\<open>types\<close>, beside \<^verbatim>\<open>keys\<close>. The four parallel arrays are one list of pairs of a key
  and a slot here; the constructor of the slot is the entry of \<^verbatim>\<open>types\<close>, and \<open>kind\<close>
  reads the source's code for it back.
\<close>

datatype slot =
    SNumber jsval jsval
  | SColor "jsval \<times> jsval \<times> jsval" "jsval \<times> jsval \<times> jsval"
  | SAngle jsval jsval

fun kind :: "slot \<Rightarrow> nat" where
  "kind (SNumber _ _) = 0"
| "kind (SColor _ _) = 1"
| "kind (SAngle _ _) = 2"

datatype actionKind = Animate | Wait

datatype error = TypeError | ColorError

type_synonym obj = "string \<Rightarrow> jsval"

text \<open>
  The fields of a \<^verbatim>\<open>PLAYGROUND.Tween\<close>. \<open>context\<close> is the reference to the context
  object. \<open>current\<close> is \<open>None\<close> for the initial \<^verbatim>\<open>false\<close>; \<open>delta\<close>, \<open>duration\<close>,
  \<open>progress\<close>, \<open>easing\<close> and \<open>currentAction\<close> are \<open>None\<close> while undefined. \<open>looped\<close>,
  \<open>finished\<close> and \<open>remove'\<close> (the source's \<^verbatim>\<open>_remove\<close>) are only tested for truth or
  written, so an undefined one is \<open>False\<close>. \<open>emitted\<close> records the names passed to
  \<^verbatim>\<open>trigger\<close>, oldest first; no listener is registered.
\<close>

record tween =
  "context" :: nat
  actions :: "action list"
  index :: int
  prevEasing :: string
  prevDuration :: real
  current :: "action option"
  looped :: bool
  finished :: bool
  delta :: "num option"
  duration :: "num option"
  easing :: "string option"
  currentAction :: "actionKind option"
  slots :: "(string \<times> slot) list"
  progress :: "num option"
  remove' :: bool
  emitted :: "string list"

definition keys :: "tween \<Rightarrow> string list" where
  "keys t = map fst (slots t)"

definition types :: "tween \<Rightarrow> nat list" where
  "types t = map (kind \<circ> snd) (slots t)"

text \<open>The constructor \<^verbatim>\<open>PLAYGROUND.Tween(manager, context)\<close>.\<close>

definition Tween :: "nat \<Rightarrow> tween" where
  "Tween c =
     \<lparr>context = c, actions = [], index = - 1, prevEasing = ''045'', prevDuration = 1 / 2,
      current = None, looped = False, finished = False, delta = None, duration = None,
      easing = None, currentAction = None, slots = [], progress = None, remove' = False,
      emitted = []\<rparr>"

text \<open>What a method returns: \<^verbatim>\<open>this\<close>, or nothing.\<close>

datatype ret = This | NoValue

subsection \<open>Building the queue\<close>

text \<open>An omitted argument is \<open>None\<close>; \<^verbatim>\<open>if (duration)\<close> is also false for 0, and
  \<^verbatim>\<open>if (easing)\<close> for the empty string.\<close>

definition add :: "tween \<Rightarrow> props \<Rightarrow> real option \<Rightarrow> string option \<Rightarrow> tween \<times> ret" where
  "add t properties duration' easing' =
     (let truthy_d = (case duration' of None \<Rightarrow> False | Some d \<Rightarrow> d \<noteq> 0);
          t1 = (if truthy_d then t\<lparr>prevDuration := the duration'\<rparr> else t);
          d = (if truthy_d then the duration' else 1 / 2);
          truthy_e = (case easing' of None \<Rightarrow> False | Some e \<Rightarrow> e \<noteq> []);
          t2 = (if truthy_e then t1\<lparr>prevEasing := the easing'\<rparr> else t1);
          e = (if truthy_e then the easing' else ''045'')
      in (t2\<lparr>actions := actions t2 @ [(properties, d, Some e)]\<rparr>, This))"

definition to :: "tween \<Rightarrow> props \<Rightarrow> real option \<Rightarrow> string option \<Rightarrow> tween \<times> ret" where
  "to t properties duration' easing' = add t properties duration' easing'"

definition loop :: "tween \<Rightarrow> tween \<times> ret" where
  "loop t = (t\<lparr>looped := True\<rparr>, This)"

definition repeat :: "tween \<Rightarrow> real \<Rightarrow> tween \<times> ret" where
  "repeat t times' = (t\<lparr>actions := actions t @ [(Tag ''repeat'', times', None)]\<rparr>, NoValue)"

definition wait :: "tween \<Rightarrow> real \<Rightarrow> tween \<times> ret" where
  "wait t time = (t\<lparr>actions := actions t @ [(Tag ''wait'', time, None)]\<rparr>, This)"

definition delay :: "tween \<Rightarrow> real \<Rightarrow> tween \<times> ret" where
  "delay t time = (t\<lparr>actions := actions t @ [(Tag ''wait'', time, None)]\<rparr>, NoValue)"

subsection \<open>Selecting the next action\<close>

text \<open>
  \<^verbatim>\<open>Object.keys\<close> of the first element with the value under each key. For a string
  (the \<^verbatim>\<open>"repeat"\<close> entry reaches this point) the keys are the positions and the values
  the single characters.
\<close>

fun chars_from :: "nat \<Rightarrow> string \<Rightarrow> (string \<times> jsval) list" where
  "chars_from i [] = []"
| "chars_from i (c # cs) = (int_to_string (int i), Str [c]) # chars_from (Suc i) cs"

fun entries :: "props \<Rightarrow> (string \<times> jsval) list" where
  "entries (Object kvs) = kvs"
| "entries (Tag s) = chars_from 0 s"

text \<open>
  The test for an angle is \<^verbatim>\<open>typeof v === "string" && v.indexOf("rad" > -1)\<close>. The
  comparison \<^verbatim>\<open>"rad" > -1\<close> is evaluated first: \<^verbatim>\<open>"rad"\<close> converts to NaN, so it is
  \<^verbatim>\<open>false\<close>, and \<^verbatim>\<open>indexOf(false)\<close> searches for the string \<^verbatim>\<open>"false"\<close>. The result is
  used as a condition: every position but 0 (also -1, not found) is true.
\<close>

definition angle_test :: "string \<Rightarrow> bool" where
  "angle_test s = (indexOf s ''false'' \<noteq> 0)"

definition decompose_color :: "ext \<Rightarrow> jsval \<Rightarrow> jsval \<Rightarrow> error + slot" where
  "decompose_color E v target =
     (case color E v of
        None \<Rightarrow> Inl ColorError
      | Some (b0, b1, b2) \<Rightarrow>
          (case color E target of
             None \<Rightarrow> Inl ColorError
           | Some (a0, a1, a2) \<Rightarrow>
               Inr (SColor (b0, b1, b2) (js_sub E a0 b0, js_sub E a1 b1, js_sub E a2 b2))))"

fun decompose :: "ext \<Rightarrow> jsval \<Rightarrow> jsval \<Rightarrow> error + slot" where
  "decompose E v (Number n) = Inr (SNumber v (js_sub E (Number n) v))"
| "decompose E v (Str s) =
     (if angle_test s
      then Inr (SAngle v (circWrappedDistance E v (Number (parseFloat E s))))
      else decompose_color E v (Str s))"
| "decompose E v Undefined = decompose_color E v Undefined"

fun decompose_all :: "ext \<Rightarrow> obj \<Rightarrow> (string \<times> jsval) list \<Rightarrow> error + (string \<times> slot) list" where
  "decompose_all E c [] = Inr []"
| "decompose_all E c ((key, target) # kvs) =
     (case decompose E (c key) target of
        Inl e \<Rightarrow> Inl e
      | Inr s \<Rightarrow>
          (case decompose_all E c kvs of
             Inl e \<Rightarrow> Inl e
           | Inr ss \<Rightarrow> Inr ((key, s) # ss)))"

text \<open>\<^verbatim>\<open>this.actions[i]\<close>: undefined outside the array.\<close>

definition action_at :: "action list \<Rightarrow> int \<Rightarrow> action option" where
  "action_at as i = (if 0 \<le> i \<and> i < int (length as) then Some (as ! nat i) else None)"

text \<open>
  The part of \<^verbatim>\<open>next\<close> from \<^verbatim>\<open>this.current = this.actions[this.index]\<close> on. Reading
  \<^verbatim>\<open>this.current[0]\<close> of an undefined \<^verbatim>\<open>current\<close> throws a TypeError.
\<close>

definition select :: "ext \<Rightarrow> obj \<Rightarrow> tween \<Rightarrow> error + tween" where
  "select E c t =
     (case action_at (actions t) (index t) of
        None \<Rightarrow> Inl TypeError
      | Some (p, d, e) \<Rightarrow>
          (let t1 = t\<lparr>current := Some (p, d, e)\<rparr>
           in if p = Tag ''wait''
              then Inr (t1\<lparr>duration := Some (Fin d), currentAction := Some Wait\<rparr>)
              else (case decompose_all E c (entries p) of
                      Inl err \<Rightarrow> Inl err
                    | Inr ss \<Rightarrow>
                        Inr (t1\<lparr>slots := ss, currentAction := Some Animate,
                                 duration := Some (Fin d), easing := e\<rparr>))))"

text \<open>\<^verbatim>\<open>this.manager.remove(this)\<close> sets the flag \<^verbatim>\<open>_remove\<close> of the tween.\<close>

definition "next" :: "ext \<Rightarrow> obj \<Rightarrow> tween \<Rightarrow> error + tween" where
  "next E c t =
     (let t1 = t\<lparr>delta := Some (Fin 0), index := index t + 1\<rparr>
      in if int (length (actions t1)) \<le> index t1
         then (if looped t1
               then select E c (t1\<lparr>emitted := emitted t1 @ [''loop''], index := 0\<rparr>)
               else Inr (t1\<lparr>emitted := emitted t1 @ [''finished'', ''finish''],
                            finished := True, remove' := True\<rparr>))
         else select E c t1)"

subsection \<open>Stepping\<close>

fun write_slot :: "ext \<Rightarrow> jsval \<Rightarrow> obj \<Rightarrow> string \<times> slot \<Rightarrow> obj" where
  "write_slot E m c (key, SNumber b ch) = c(key := js_add E b (js_mul E ch m))"
| "write_slot E m c (key, SColor (b0, b1, b2) (c0, c1, c2)) =
     c(key := Str (''rgb('' @
         join (map (\<lambda>(b, ch). int_to_string (to_int32 (to_number E (js_add E b (js_mul E ch m)))))
                 [(b0, c0), (b1, c1), (b2, c2)]) @ '')''))"
| "write_slot E m c (key, SAngle b ch) = c(key := circWrap E (js_add E b (js_mul E ch m)))"

definition doAnimate :: "ext \<Rightarrow> real \<Rightarrow> tween \<times> obj \<Rightarrow> error + tween \<times> obj" where
  "doAnimate E d tc =
     (let t = fst tc; c = snd tc;
          p = nmin (Fin 1) (ndiv (numeric (delta t)) (numeric (duration t)));
          t1 = t\<lparr>progress := Some p\<rparr>;
          m = ease E p (easing t1);
          c1 = foldl (write_slot E m) c (slots t1)
      in if nge p (Fin 1)
         then (case next E c1 t1 of Inl e \<Rightarrow> Inl e | Inr t2 \<Rightarrow> Inr (t2, c1))
         else Inr (t1, c1))"

definition doWait :: "ext \<Rightarrow> real \<Rightarrow> tween \<times> obj \<Rightarrow> error + tween \<times> obj" where
  "doWait E d tc =
     (let t = fst tc; c = snd tc
      in if nge (numeric (delta t)) (numeric (duration t))
         then (case next E c t of Inl e \<Rightarrow> Inl e | Inr t1 \<Rightarrow> Inr (t1, c))
         else Inr (t, c))"

definition step :: "ext \<Rightarrow> real \<Rightarrow> tween \<times> obj \<Rightarrow> error + tween \<times> obj" where
  "step E d tc =
     (let t = fst tc; c = snd tc;
          t1 = t\<lparr>delta := Some (nadd (numeric (delta t)) (Fin d))\<rparr>
      in case (if current t1 = None then next E c t1 else Inr t1) of
           Inl e \<Rightarrow> Inl e
         | Inr t2 \<Rightarrow>
             (case currentAction t2 of
                Some Animate \<Rightarrow> doAnimate E d (t2, c)
              | Some Wait \<Rightarrow> doWait E d (t2, c)
              | None \<Rightarrow> Inr (t2, c)))"

definition forward :: "ext \<Rightarrow> tween \<times> obj \<Rightarrow> error + tween \<times> obj" where
  "forward E tc = step E 0 ((fst tc)\<lparr>delta := duration (fst tc)\<rparr>, snd tc)"

definition rewind :: "ext \<Rightarrow> tween \<times> obj \<Rightarrow> error + tween \<times> obj" where
  "rewind E tc = step E 0 ((fst tc)\<lparr>delta := Some (Fin 0)\<rparr>, snd tc)"

text \<open>
  \<^verbatim>\<open>end\<close>: the loop starts at \<^verbatim>\<open>this.index + 1\<close>; a negative position would read
  \<^verbatim>\<open>this.actions[i][0]\<close> of an undefined entry, a TypeError. \<^verbatim>\<open>typeof ... === "object"\<close>
  holds for the property objects.
\<close>

fun is_object :: "props \<Rightarrow> bool" where
  "is_object (Object _) = True"
| "is_object (Tag _) = False"

definition lastAnimationIndex :: "tween \<Rightarrow> int" where
  "lastAnimationIndex t =
     foldl (\<lambda>l i. if is_object (fst (actions t ! i)) then int i else l) 0
       [nat (index t + 1) ..< length (actions t)]"

definition "end" :: "ext \<Rightarrow> tween \<times> obj \<Rightarrow> error + tween \<times> obj" where
  "end E tc =
     (let t = fst tc; c = snd tc
      in if index t + 1 < 0 then Inl TypeError
         else (case next E c (t\<lparr>index := lastAnimationIndex t - 1\<rparr>) of
                 Inl e \<Rightarrow> Inl e
               | Inr t1 \<Rightarrow> step E 0 (t1\<lparr>delta := duration t1\<rparr>, c)))"

section \<open>The manager\<close>

text \<open>
  A \<^verbatim>\<open>PLAYGROUND.TweenManager\<close> holds the array \<^verbatim>\<open>tweens\<close> of references to tween
  objects and its own \<^verbatim>\<open>delta\<close> (here \<open>manager_delta\<close>). Tweens and context objects are
  shared by reference: \<open>heap\<close> maps a reference to the tween object, \<open>ctxs\<close> a reference to
  the context object, and \<open>nalloc\<close> is the next free tween reference. Every tween of the
  world belongs to this one manager.
\<close>

record world =
  tweens :: "nat list"
  manager_delta :: real
  heap :: "nat \<Rightarrow> tween"
  nalloc :: nat
  ctxs :: "nat \<Rightarrow> obj"

definition TweenManager :: "(nat \<Rightarrow> obj) \<Rightarrow> world" where
  "TweenManager cs =
     \<lparr>tweens = [], manager_delta = 0, heap = (\<lambda>_. Tween 0), nalloc = 0, ctxs = cs\<rparr>"

definition manager_remove :: "world \<Rightarrow> nat \<Rightarrow> world" where
  "manager_remove w r = w\<lparr>heap := (heap w)(r := (heap w r)\<lparr>remove' := True\<rparr>)\<rparr>"

definition manager_add :: "world \<Rightarrow> nat \<Rightarrow> world" where
  "manager_add w r =
     (let w1 = w\<lparr>heap := (heap w)(r := (heap w r)\<lparr>remove' := False\<rparr>)\<rparr>
      in if r \<in> set (tweens w1) then w1 else w1\<lparr>tweens := tweens w1 @ [r]\<rparr>)"

definition manager_discard :: "world \<Rightarrow> nat \<Rightarrow> nat \<Rightarrow> world" where
  "manager_discard w object safe =
     foldl (\<lambda>w' r. if context (heap w' r) = object \<and> r \<noteq> safe then manager_remove w' r else w')
       w (tweens w)"

definition manager_tween :: "world \<Rightarrow> nat \<Rightarrow> world \<times> nat" where
  "manager_tween w c =
     (let r = nalloc w;
          w1 = w\<lparr>heap := (heap w)(r := Tween c), nalloc := Suc r\<rparr>
      in (manager_add w1 r, r))"

text \<open>Running a method of the tween \<open>r\<close> on its own object and its context object.\<close>

definition store :: "world \<Rightarrow> nat \<Rightarrow> tween \<times> obj \<Rightarrow> world" where
  "store w r tc =
     w\<lparr>heap := (heap w)(r := fst tc),
       ctxs := (ctxs w)(context (heap w r) := snd tc)\<rparr>"

definition load :: "world \<Rightarrow> nat \<Rightarrow> tween \<times> obj" where
  "load w r = (heap w r, ctxs w (context (heap w r)))"

text \<open>
  One pass of the loop of \<^verbatim>\<open>TweenManager.step\<close> over the tween \<open>r\<close>: a tween that is not
  marked is stepped. \<open>splice\<close> is \<^verbatim>\<open>this.tweens.splice(i, 1)\<close>.
\<close>

definition visit :: "ext \<Rightarrow> real \<Rightarrow> world \<Rightarrow> nat \<Rightarrow> error + tween \<times> obj" where
  "visit E d w r = (if \<not> remove' (heap w r) then step E d (load w r) else Inr (load w r))"

definition splice :: "nat \<Rightarrow> world \<Rightarrow> world" where
  "splice i w = w\<lparr>tweens := take i (tweens w) @ drop (Suc i) (tweens w)\<rparr>"

text \<open>
  The loop at position \<open>i\<close>. The test of \<^verbatim>\<open>_remove\<close> after the step sees a mark set
  during the step. After \<^verbatim>\<open>splice(i--, 1)\<close> the increment of the loop brings \<open>i\<close> back
  to the same position.
\<close>

function step_from :: "ext \<Rightarrow> real \<Rightarrow> nat \<Rightarrow> world \<Rightarrow> error + world" where
  "step_from E d i w =
     (if i < length (tweens w)
      then (case visit E d w (tweens w ! i) of
              Inl e \<Rightarrow> Inl e
            | Inr tc \<Rightarrow>
                (if remove' (fst tc)
                 then step_from E d i (splice i (store w (tweens w ! i) tc))
                 else step_from E d (Suc i) (store w (tweens w ! i) tc)))
      else Inr w)"
  by pat_completeness auto
termination
  by (relation "measure (\<lambda>(E, d, i, w). length (tweens w) - i)")
    (auto simp: store_def splice_def)

declare step_from.simps [simp del]

definition manager_step :: "ext \<Rightarrow> real \<Rightarrow> world \<Rightarrow> error + world" where
  "manager_step E d w = step_from E d 0 (w\<lparr>manager_delta := manager_delta w + d\<rparr>)"

subsection \<open>The methods of a tween that go through the manager\<close>

definition discard :: "world \<Rightarrow> nat \<Rightarrow> world \<times> ret" where
  "discard w r = (manager_discard w (context (heap w r)) r, This)"

definition stop :: "world \<Rightarrow> nat \<Rightarrow> world \<times> ret" where
  "stop w r = (manager_remove w r, This)"

definition play :: "world \<Rightarrow> nat \<Rightarrow> world \<times> ret" where
  "play w r =
     (let w1 = manager_add w r
      in (w1\<lparr>heap := (heap w1)(r := (heap w1 r)\<lparr>finished := False\<rparr>)\<rparr>, This))"

section \<open>Calls from the host\<close>

text \<open>
  The host calls the methods of a tween, creates tweens with \<^verbatim>\<open>manager.tween(context)\<close>
  and lets the manager step once per frame. A method of a tween works on the tween object
  and on its context object; \<open>on_tween\<close> writes both back into the world. A call that
  throws ends the run with its error.
\<close>

datatype call =
    CAdd props "real option" "string option"
  | CTo props "real option" "string option"
  | CLoop
  | CRepeat real
  | CWait real
  | CDelay real
  | CStop
  | CPlay
  | CDiscard
  | CEnd
  | CForward
  | CRewind
  | CNext
  | CStep real

datatype event = Call nat call | Frame real | Create nat

definition on_tween :: "world \<Rightarrow> nat \<Rightarrow> error + tween \<times> obj \<Rightarrow> error + world" where
  "on_tween w r res = map_sum id (store w r) res"

definition build :: "world \<Rightarrow> nat \<Rightarrow> tween \<times> ret \<Rightarrow> error + world" where
  "build w r res = Inr (w\<lparr>heap := (heap w)(r := fst res)\<rparr>)"

fun apply_call :: "ext \<Rightarrow> world \<Rightarrow> nat \<Rightarrow> call \<Rightarrow> error + world" where
  "apply_call E w r (CAdd p d e) = build w r (add (heap w r) p d e)"
| "apply_call E w r (CTo p d e) = build w r (to (heap w r) p d e)"
| "apply_call E w r CLoop = build w r (loop (heap w r))"
| "apply_call E w r (CRepeat n) = build w r (repeat (heap w r) n)"
| "apply_call E w r (CWait d) = build w r (wait (heap w r) d)"
| "apply_call E w r (CDelay d) = build w r (delay (heap w r) d)"
| "apply_call E w r CStop = Inr (fst (stop w r))"
| "apply_call E w r CPlay = Inr (fst (play w r))"
| "apply_call E w r CDiscard = Inr (fst (discard w r))"
| "apply_call E w r CEnd = on_tween w r (end E (load w r))"
| "apply_call E w r CForward = on_tween w r (forward E (load w r))"
| "apply_call E w r CRewind = on_tween w r (rewind E (load w r))"
| "apply_call E w r CNext =
     on_tween w r (map_sum id (\<lambda>t. (t, snd (load w r))) (next E (snd (load w r)) (heap w r)))"
| "apply_call E w r (CStep d) = on_tween w r (step E d (load w r))"

fun occur :: "ext \<Rightarrow> world \<Rightarrow> event \<Rightarrow> error + world" where
  "occur E w (Call r c) = apply_call E w r c"
| "occur E w (Frame d) = manager_step E d w"
| "occur E w (Create c) = Inr (fst (manager_tween w c))"

fun run :: "ext \<Rightarrow> event list \<Rightarrow> world \<Rightarrow> error + world" where
  "run E [] w = Inr w"
| "run E (ev # evs) w = (case occur E w ev of Inl e \<Rightarrow> Inl e | Inr w' \<Rightarrow> run E evs w')"

fun steps :: "ext \<Rightarrow> real list \<Rightarrow> tween \<times> obj \<Rightarrow> error + tween \<times> obj" where
  "steps E [] tc = Inr tc"
| "steps E (d # ds) tc = (case step E d tc of Inl e \<Rightarrow> Inl e | Inr tc' \<Rightarrow> steps E ds tc')"

section \<open>Examples\<close>

text \<open>
  A linear easing returns the progress itself. \<open>linear_ext\<close> is an environment for the
  examples with numeric targets: only \<open>ease\<close> is called for them, and the other
  collaborators are fixed to constant answers.
\<close>

definition linear :: "num \<Rightarrow> string option \<Rightarrow> jsval" where
  "linear p e = Number p"

definition linear_ext :: ext where
  "linear_ext =
     \<lparr>ease = linear, circWrappedDistance = (\<lambda>a b. Number NaN), circWrap = (\<lambda>v. v),
      color = (\<lambda>v. None), parseFloat = (\<lambda>s. NaN), str_to_num = (\<lambda>s. NaN),
      num_to_str = (\<lambda>a. [])\<rparr>"

text \<open>An object with no property, and the contexts \<^verbatim>\<open>{x: 0}\<close> and
  \<^verbatim>\<open>{color: "rgb(0,0,0)"}\<close>.\<close>

definition empty_obj :: obj where
  "empty_obj = (\<lambda>k. Undefined)"

definition x0 :: obj where
  "x0 = empty_obj(''x'' := Number (Fin 0))"

definition black :: obj where
  "black = empty_obj(''color'' := Str ''rgb(0,0,0)'')"

text \<open>
  The tweens of \<^verbatim>\<open>to({x: 10}, 1000)\<close>, of \<^verbatim>\<open>wait(200).to({x: 10}, 1000)\<close> and of
  \<^verbatim>\<open>to({color: "rgb(255,255,255)"}, 1000)\<close>, each built on a new tween; and the first of
  them once a first \<^verbatim>\<open>step\<close> has selected its action on the context \<^verbatim>\<open>{x: 0}\<close>.
\<close>

definition tween_x10 :: tween where
  "tween_x10 = fst (to (Tween 0) (Object [(''x'', Number (Fin 10))]) (Some 1000) None)"


definition tween_color :: tween where
  "tween_color =
     fst (to (Tween 0) (Object [(''color'', Str ''rgb(255,255,255)'')]) (Some 1000) None)"

definition tween_x10_selected :: tween where
  "tween_x10_selected =
     tween_x10\<lparr>index := 0,
       current := Some (Object [(''x'', Number (Fin 10))], 1000, Some ''045''),
       delta := Some (Fin 0), duration := Some (Fin 1000), easing := Some ''045'',
       currentAction := Some Animate,
       slots := [(''x'', SNumber (Number (Fin 0)) (Number (Fin 10)))],
       progress := Some (Fin 0)\<rparr>"



text \<open>The calls \<^verbatim>\<open>to({x: 10}, 1000)\<close> and \<^verbatim>\<open>to({x: 20}, 1000)\<close>.\<close>

definition to_x10 :: call where
  "to_x10 = CTo (Object [(''x'', Number (Fin 10))]) (Some 1000) None"

definition to_x20 :: call where
  "to_x20 = CTo (Object [(''x'', Number (Fin 20))]) (Some 1000) None"

text \<open>
  A new manager whose context objects are all \<^verbatim>\<open>{x: 0}\<close>; the world in which the
  manager created a tween, \<^verbatim>\<open>to({x: 10}, 1000)\<close> was called on it and one frame selected
  the action; and that world after the manager created a second tween, which was stopped
  at once, so that the tween 0 is animating and the tween 1 is marked.
\<close>

definition world0 :: world where
  "world0 = TweenManager (\<lambda>c. x0)"

definition world_x10 :: world where
  "world_x10 =
     (fst (manager_tween world0 0))
       \<lparr>heap := (heap (fst (manager_tween world0 0)))(0 := tween_x10_selected)\<rparr>"

definition world_stopped :: world where
  "world_stopped = fst (stop (fst (manager_tween world_x10 0)) 1)"

text \<open>
  What a run leaves behind: a property of the context, the cursor, the flags
  \<^verbatim>\<open>finished\<close> and \<^verbatim>\<open>_remove\<close>, the current kind of action, the context object and
  the types of the slots of a tween; the collection of the manager, the cursor of a tween
  beside the length of its queue, and a property of a context object of a world.
\<close>

definition value_of :: "string \<Rightarrow> error + tween \<times> obj \<Rightarrow> error + jsval" where
  "value_of k r = map_sum id (\<lambda>tc. snd tc k) r"

definition index_of :: "error + tween \<times> obj \<Rightarrow> error + int" where
  "index_of r = map_sum id (\<lambda>tc. index (fst tc)) r"

definition flags_of :: "error + tween \<times> obj \<Rightarrow> error + bool \<times> bool" where
  "flags_of r = map_sum id (\<lambda>tc. (finished (fst tc), remove' (fst tc))) r"

definition action_of :: "error + tween \<times> obj \<Rightarrow> error + actionKind option" where
  "action_of r = map_sum id (\<lambda>tc. currentAction (fst tc)) r"


definition types_of :: "error + tween \<Rightarrow> error + nat list" where
  "types_of r = map_sum id types r"

definition collection :: "error + world \<Rightarrow> error + nat list" where
  "collection r = map_sum id tweens r"

definition cursor :: "nat \<Rightarrow> error + world \<Rightarrow> error + int \<times> nat" where
  "cursor r res = map_sum id (\<lambda>w. (index (heap w r), length (actions (heap w r)))) res"

definition property :: "nat \<Rightarrow> string \<Rightarrow> error + world \<Rightarrow> error + jsval" where
  "property c k res = map_sum id (\<lambda>w. ctxs w c k) res"

section \<open>Facts for evaluation\<close>

lemmas tween_defs =
  to_def add_def Tween_def wait_def delay_def repeat_def loop_def

lemmas step_defs =
  step_def next_def select_def action_at_def doAnimate_def doWait_def nmin_def
  js_add_def js_sub_def js_mul_def nsub_def Let_def

lemmas observe_defs = value_of_def index_of_def flags_of_def action_of_def

section \<open>Linear interpolation of a number (C1)\<close>

text \<open>
  C1 as stated: with the context \<^verbatim>\<open>{x: 0}\<close>, \<^verbatim>\<open>to({x: 10}, 1000)\<close> and a linear easing, a
  single \<^verbatim>\<open>step(500)\<close> leaves \<open>x\<close> near 5, and once the supplied time adds up to 1000,
  \<open>x\<close> is 10 and the tween has moved past the action. The code does otherwise: the first
  \<^verbatim>\<open>step\<close> finds no current action and calls \<^verbatim>\<open>next\<close>, which sets \<^verbatim>\<open>delta\<close> back to 0
  after the time of that call was added. After \<^verbatim>\<open>step(500)\<close> the value is 0, and after a
  second \<^verbatim>\<open>step(500)\<close> it is 5 with the cursor still on the action.
\<close>

theorem C1_first_step_is_lost:
  "value_of ''x'' (steps linear_ext [500] (tween_x10, x0)) = Inr (Number (Fin 0)) \<and>
   value_of ''x'' (steps linear_ext [500, 500] (tween_x10, x0)) = Inr (Number (Fin 5)) \<and>
   index_of (steps linear_ext [500, 500] (tween_x10, x0)) = Inr 0 \<and>
   flags_of (steps linear_ext [500, 500] (tween_x10, x0)) = Inr (False, False)"
  by (simp add: observe_defs tween_x10_def tween_defs x0_def empty_obj_def step_defs
      linear_def linear_ext_def)

text \<open>
  C1, amended: the first \<^verbatim>\<open>step\<close> call only selects the action, whatever time it is given,
  and leaves \<open>x\<close> at 0. A following \<^verbatim>\<open>step(500)\<close> leaves \<open>x\<close> at 5, and one more
  \<^verbatim>\<open>step(500)\<close>, when the time supplied after the selecting call reaches 1000, leaves \<open>x\<close>
  at exactly 10 and moves the tween past the action: the cursor is 1, the length of the
  queue, and the tween is finished and marked for removal. This holds with any
  collaborators beside the linear easing.
\<close>

theorem C1_linear_after_selection:
  "value_of ''x'' (steps (E\<lparr>ease := linear\<rparr>) [d0] (tween_x10, x0)) = Inr (Number (Fin 0)) \<and>
   value_of ''x'' (steps (E\<lparr>ease := linear\<rparr>) [d0, 500] (tween_x10, x0)) = Inr (Number (Fin 5)) \<and>
   index_of (steps (E\<lparr>ease := linear\<rparr>) [d0, 500] (tween_x10, x0)) = Inr 0 \<and>
   value_of ''x'' (steps (E\<lparr>ease := linear\<rparr>) [d0, 500, 500] (tween_x10, x0)) = Inr (Number (Fin 10)) \<and>
   index_of (steps (E\<lparr>ease := linear\<rparr>) [d0, 500, 500] (tween_x10, x0)) = Inr 1 \<and>
   flags_of (steps (E\<lparr>ease := linear\<rparr>) [d0, 500, 500] (tween_x10, x0)) = Inr (True, True)"
  by (simp add: observe_defs tween_x10_def tween_defs x0_def empty_obj_def step_defs linear_def)

section \<open>What \<^verbatim>\<open>add\<close> remembers (C5)\<close>

text \<open>
  C5 as stated: \<^verbatim>\<open>add\<close> uses a duration and an easing given earlier as the defaults of a
  later call that omits them. In the code the later call gets 0.5 and \<^verbatim>\<open>"045"\<close>: after
  \<^verbatim>\<open>add({x: 10}, 1000, "linear")\<close>, the action queued by \<^verbatim>\<open>add({y: 2})\<close> has the duration
  0.5 and the easing \<^verbatim>\<open>"045"\<close>.
\<close>

theorem C5_later_add_gets_fixed_defaults:
  "actions (fst (add (fst (add (Tween 0) (Object [(''x'', Number (Fin 10))])
                       (Some 1000) (Some ''linear'')))
                (Object [(''y'', Number (Fin 2))]) None None)) =
   [(Object [(''x'', Number (Fin 10))], 1000, Some ''linear''),
    (Object [(''y'', Number (Fin 2))], 1 / 2, Some ''045'')]"
  by (simp add: tween_defs)

text \<open>
  C5, amended: \<^verbatim>\<open>add\<close> returns the tween itself. A call that omits the duration and the
  easing queues the action with 0.5 and \<^verbatim>\<open>"045"\<close> and leaves \<^verbatim>\<open>prevDuration\<close> and
  \<^verbatim>\<open>prevEasing\<close> as they were. A call that gives them queues the action with the given
  values and stores them in \<^verbatim>\<open>prevDuration\<close> and \<^verbatim>\<open>prevEasing\<close>; a duration of 0 and an
  empty easing count as omitted. A call that gives only one of the two does each for its
  own argument.
\<close>

theorem C5_add_defaults:
  "snd (add t p d e) = This \<and>
   actions (fst (add t p None None)) = actions t @ [(p, 1 / 2, Some ''045'')] \<and>
   prevDuration (fst (add t p None None)) = prevDuration t \<and>
   prevEasing (fst (add t p None None)) = prevEasing t \<and>
   actions (fst (add t p (Some a) (Some b))) =
     actions t @ [(p, if a = 0 then 1 / 2 else a, Some (if b = [] then ''045'' else b))] \<and>
   prevDuration (fst (add t p (Some a) (Some b))) = (if a = 0 then prevDuration t else a) \<and>
   prevEasing (fst (add t p (Some a) (Some b))) = (if b = [] then prevEasing t else b) \<and>
   actions (fst (add t p (Some a) None)) =
     actions t @ [(p, if a = 0 then 1 / 2 else a, Some ''045'')] \<and>
   prevDuration (fst (add t p (Some a) None)) = (if a = 0 then prevDuration t else a) \<and>
   prevEasing (fst (add t p (Some a) None)) = prevEasing t \<and>
   actions (fst (add t p None (Some b))) =
     actions t @ [(p, 1 / 2, Some (if b = [] then ''045'' else b))] \<and>
   prevDuration (fst (add t p None (Some b))) = prevDuration t \<and>
   prevEasing (fst (add t p None (Some b))) = (if b = [] then prevEasing t else b)"
  by (simp add: add_def Let_def)

section \<open>What the methods return (C10)\<close>

text \<open>
  C10: \<^verbatim>\<open>delay\<close> and \<^verbatim>\<open>repeat\<close> return nothing, so no call can be chained after them;
  \<^verbatim>\<open>add\<close>, \<^verbatim>\<open>to\<close>, \<^verbatim>\<open>wait\<close>, \<^verbatim>\<open>loop\<close>, \<^verbatim>\<open>play\<close>, \<^verbatim>\<open>stop\<close> and \<^verbatim>\<open>discard\<close> return
  the tween. On the queue \<^verbatim>\<open>delay\<close> does what \<^verbatim>\<open>wait\<close> does.
\<close>

theorem C10_return_values:
  "snd (delay t time) = NoValue \<and> snd (repeat t n) = NoValue \<and>
   fst (delay t time) = fst (wait t time) \<and>
   snd (add t p d e) = This \<and> snd (to t p d e) = This \<and> snd (wait t time) = This \<and>
   snd (loop t) = This \<and> snd (play w r) = This \<and> snd (stop w r) = This \<and>
   snd (discard w r) = This"
  by (simp add: tween_defs play_def stop_def discard_def Let_def)

section \<open>Waiting (C6)\<close>










section \<open>Classifying the targets (C3, C4)\<close>

lemma indexOf_lower: "- 1 \<le> indexOf s p"
  by (induction s) (auto simp: Let_def)

lemma indexOf_zero: "(indexOf s p = 0) = is_prefix p s"
proof (cases s)
  case Nil
  then show ?thesis by (cases p) auto
next
  case (Cons c cs)
  have "- 1 \<le> indexOf cs p" by (rule indexOf_lower)
  then show ?thesis using Cons by (auto simp: Let_def)
qed

text \<open>The test of the source holds for every string that does not begin with
  \<^verbatim>\<open>false\<close>, whether it mentions \<^verbatim>\<open>rad\<close> or not.\<close>

lemma angle_test_prefix: "angle_test s = (\<not> is_prefix ''false'' s)"
  by (simp add: angle_test_def indexOf_zero)

lemma string_target_kind:
  "(map_sum id kind (decompose E v (Str s)) = Inr 2) = (\<not> is_prefix ''false'' s)"
  by (auto simp: angle_test_prefix decompose_color_def split: option.splits)

lemma angle_rgb: "angle_test ''rgb(255,255,255)''"
  by (simp add: angle_test_prefix)

text \<open>
  C3 at the target \<^verbatim>\<open>"rgb(255,255,255)"\<close>, a string that is no angle expression: \<^verbatim>\<open>next\<close>
  files it under type 2, the angles, where the claim has it under type 1, the colours.
\<close>

theorem C3_color_string_typed_as_angle:
  "types_of (next E black tween_color) = Inr [2] \<and>
   map_sum id kind (decompose E v (Str ''rgb(255,255,255)'')) = Inr 2"
  by (simp add: types_of_def types_def tween_color_def tween_defs black_def empty_obj_def
      next_def select_def action_at_def Let_def angle_rgb)

text \<open>
  C4 at its own input: the tween is selected by a first \<^verbatim>\<open>step\<close> and brought to the
  progress 0.5 by \<^verbatim>\<open>step(500)\<close>. The value written to \<^verbatim>\<open>color\<close> is what \<^verbatim>\<open>circWrap\<close>
  returns for the old string with a number appended to it, not the string
  \<^verbatim>\<open>"rgb(127,127,127)"\<close> of the colour branch.
\<close>

theorem C4_color_animated_as_angle:
  "value_of ''color'' (steps E [0, 500] (tween_color, black)) =
     Inr (circWrap E (Str (''rgb(0,0,0)'' @ to_string E (js_mul E
       (circWrappedDistance E (Str ''rgb(0,0,0)'') (Number (parseFloat E ''rgb(255,255,255)'')))
       (ease E (Fin (1 / 2)) (Some ''045''))))))"
  by (simp add: observe_defs tween_color_def tween_defs black_def empty_obj_def step_defs
      angle_rgb)

text \<open>The colour branch itself, had it been reached: halfway from black to white it
  writes \<^verbatim>\<open>"rgb(127,127,127)"\<close>.\<close>

lemma color_halfway:
  "write_slot E (Number (Fin (1 / 2))) c
     (k, SColor (Number (Fin 0), Number (Fin 0), Number (Fin 0))
                (Number (Fin 255), Number (Fin 255), Number (Fin 255))) k
   = Str ''rgb(127,127,127)''"
  by (simp add: js_add_def js_mul_def int_to_string_def digits.simps Let_def)

section \<open>The cursor of a tween\<close>

lemma select_fields:
  "select E c t = Inr t' \<Longrightarrow>
     index t' = index t \<and> actions t' = actions t \<and> looped t' = looped t \<and>
     remove' t' = remove' t \<and> context t' = context t \<and>
     0 \<le> index t \<and> index t < int (length (actions t)) \<and>
     current t' = Some (actions t ! nat (index t))"
  by (auto simp: select_def action_at_def Let_def split: option.splits if_splits sum.splits prod.splits)

lemma next_cases:
  "next E c t = Inr t' \<Longrightarrow>
     (if int (length (actions t)) \<le> index t + 1 \<and> \<not> looped t
      then index t' = index t + 1 \<and> current t' = current t \<and> finished t' \<and> remove' t'
      else (index t' = index t + 1 \<or> looped t \<and> index t' = 0) \<and>
           0 \<le> index t' \<and> index t' < int (length (actions t)) \<and>
           current t' = Some (actions t ! nat (index t')) \<and> remove' t' = remove' t) \<and>
     actions t' = actions t \<and> looped t' = looped t \<and> context t' = context t"
  by (auto simp: next_def Let_def split: if_splits dest!: select_fields)

lemma next_index: "next E c t = Inr t' \<Longrightarrow> - 1 \<le> index t \<Longrightarrow> 0 \<le> index t'"
  by (drule next_cases) (auto split: if_splits)

lemma next_frame: "next E c t = Inr t' \<Longrightarrow> actions t' = actions t \<and> looped t' = looped t \<and> context t' = context t"
  by (drule next_cases) simp

lemma doAnimate_index:
  "doAnimate E d (t, c) = Inr (t', c') \<Longrightarrow> - 1 \<le> index t \<Longrightarrow> - 1 \<le> index t'"
  by (auto simp: doAnimate_def Let_def split: if_splits sum.splits dest!: next_index)

lemma doWait_index:
  "doWait E d (t, c) = Inr (t', c') \<Longrightarrow> - 1 \<le> index t \<Longrightarrow> - 1 \<le> index t'"
  by (auto simp: doWait_def Let_def split: if_splits sum.splits dest!: next_index)

lemma step_index:
  "step E d (t, c) = Inr (t', c') \<Longrightarrow> - 1 \<le> index t \<Longrightarrow> - 1 \<le> index t'"
  by (auto simp: step_def Let_def split: if_splits sum.splits option.splits actionKind.splits
      dest!: next_index doAnimate_index doWait_index)

lemma step_context:
  "step E d (t, c) = Inr (t', c') \<Longrightarrow> context t' = context t"
  by (auto simp: step_def doAnimate_def doWait_def Let_def split: if_splits sum.splits option.splits actionKind.splits
      dest!: next_frame)

lemma lastAnimationIndex_nonneg: "0 \<le> lastAnimationIndex t"
proof -
  have "0 \<le> l \<Longrightarrow> 0 \<le> foldl (\<lambda>l i. if is_object (fst (as ! i)) then int i else l) l xs"
    for l :: int and as :: "action list" and xs
    by (induction xs arbitrary: l) auto
  from this [of 0] show ?thesis by (simp add: lastAnimationIndex_def)
qed

lemma end_index:
  "end E (t, c) = Inr (t', c') \<Longrightarrow> - 1 \<le> index t'"
  using lastAnimationIndex_nonneg [of t]
  by (auto simp: end_def Let_def split: if_splits sum.splits dest!: next_index step_index)

lemma forward_index:
  "forward E (t, c) = Inr (t', c') \<Longrightarrow> - 1 \<le> index t \<Longrightarrow> - 1 \<le> index t'"
  by (auto simp: forward_def dest!: step_index)

lemma rewind_index:
  "rewind E (t, c) = Inr (t', c') \<Longrightarrow> - 1 \<le> index t \<Longrightarrow> - 1 \<le> index t'"
  by (auto simp: rewind_def dest!: step_index)

section \<open>The loop of the manager\<close>

text \<open>An induction rule that follows the successful runs of the loop.\<close>

lemma step_from_induct [consumes 1, case_names stop splice keep]:
  assumes run: "step_from E d i w = Inr w'"
    and stop: "\<And>i w. \<not> i < length (tweens w) \<Longrightarrow> P i w w"
    and splice: "\<And>i w tc w'. i < length (tweens w) \<Longrightarrow> visit E d w (tweens w ! i) = Inr tc \<Longrightarrow>
        remove' (fst tc) \<Longrightarrow>
        step_from E d i (splice i (store w (tweens w ! i) tc)) = Inr w' \<Longrightarrow>
        P i (splice i (store w (tweens w ! i) tc)) w' \<Longrightarrow> P i w w'"
    and keep: "\<And>i w tc w'. i < length (tweens w) \<Longrightarrow> visit E d w (tweens w ! i) = Inr tc \<Longrightarrow>
        \<not> remove' (fst tc) \<Longrightarrow>
        step_from E d (Suc i) (store w (tweens w ! i) tc) = Inr w' \<Longrightarrow>
        P (Suc i) (store w (tweens w ! i) tc) w' \<Longrightarrow> P i w w'"
  shows "P i w w'"
  using assms
proof (induction E d i w rule: step_from.induct)
  case (1 E d i w)
  note run = "1.prems"(1) and stop = "1.prems"(2) and splice = "1.prems"(3)
    and keep = "1.prems"(4)
  show ?case
  proof (cases "i < length (tweens w)")
    case False
    with run have "w' = w" by (simp add: step_from.simps)
    with False stop show ?thesis by simp
  next
    case True
    with run obtain tc where tc: "visit E d w (tweens w ! i) = Inr tc"
      by (subst (asm) step_from.simps) (auto split: sum.splits)
    show ?thesis
    proof (cases "remove' (fst tc)")
      case r: True
      with run True tc
      have s: "step_from E d i (splice i (store w (tweens w ! i) tc)) = Inr w'"
        by (subst (asm) step_from.simps) simp
      have "P i (splice i (store w (tweens w ! i) tc)) w'"
        by (rule "1.IH"(1) [OF True tc r s stop splice keep])
      with splice [OF True tc r s] show ?thesis .
    next
      case r: False
      with run True tc
      have s: "step_from E d (Suc i) (store w (tweens w ! i) tc) = Inr w'"
        by (subst (asm) step_from.simps) simp
      have "P (Suc i) (store w (tweens w ! i) tc) w'"
        by (rule "1.IH"(2) [OF True tc r s stop splice keep])
      with keep [OF True tc r s] show ?thesis .
    qed
  qed
qed

lemma store_tweens [simp]: "tweens (store w r tc) = tweens w"
  by (simp add: store_def)

lemma store_heap [simp]: "heap (store w r tc) r' = (if r' = r then fst tc else heap w r')"
  by (simp add: store_def)

lemma splice_heap [simp]: "heap (splice i w) = heap w"
  by (simp add: splice_def)

lemma splice_tweens: "tweens (splice i w) = take i (tweens w) @ drop (Suc i) (tweens w)"
  by (simp add: splice_def)

lemma splice_drop:
  "i < length (tweens w) \<Longrightarrow> drop i (tweens (splice i w)) = drop (Suc i) (tweens w)"
  by (simp add: splice_def)

lemma splice_take:
  "i < length (tweens w) \<Longrightarrow> take i (tweens (splice i w)) = take i (tweens w)"
  by (simp add: splice_def)

lemma visit_index:
  "visit E d w r = Inr tc \<Longrightarrow> - 1 \<le> index (heap w r) \<Longrightarrow> - 1 \<le> index (fst tc)"
  by (cases tc) (auto simp: visit_def load_def split: if_splits dest: step_index)

lemma visit_marked: "remove' (heap w r) \<Longrightarrow> visit E d w r = Inr (load w r)"
  by (simp add: visit_def)

lemma step_from_index:
  assumes "step_from E d i w = Inr w'" and "\<forall>r. - 1 \<le> index (heap w r)"
  shows "\<forall>r. - 1 \<le> index (heap w' r)"
  using assms
proof (induction rule: step_from_induct)
  case (stop i w)
  then show ?case by simp
next
  case (splice i w tc w')
  then show ?case by (auto dest: visit_index)
next
  case (keep i w tc w')
  then show ?case by (auto dest: visit_index)
qed

lemma splice_distinct: "distinct (tweens w) \<Longrightarrow> distinct (tweens (splice i w))"
proof -
  assume d: "distinct (tweens w)"
  have "set (drop (Suc i) (tweens w)) \<subseteq> set (drop i (tweens w))"
    by (rule set_drop_subset_set_drop) simp
  moreover from d have "set (take i (tweens w)) \<inter> set (drop i (tweens w)) = {}"
    by (metis append_take_drop_id distinct_append)
  ultimately show ?thesis using d by (auto simp: splice_def distinct_take distinct_drop)
qed

lemma step_from_distinct:
  assumes "step_from E d i w = Inr w'" and "distinct (tweens w)"
  shows "distinct (tweens w')"
  using assms
  by (induction rule: step_from_induct) (simp_all add: splice_distinct)

lemma nth_in_drop: "i < length xs \<Longrightarrow> xs ! i \<in> set (drop i xs)"
  by (metis Cons_nth_drop_Suc list.set_intros(1))

lemma drop_Suc_subset: "set (drop (Suc i) xs) \<subseteq> set (drop i xs)"
  by (rule set_drop_subset_set_drop) simp

lemma step_from_frame:
  assumes "step_from E d i w = Inr w'" and "r \<notin> set (drop i (tweens w))"
  shows "heap w' r = heap w r"
  using assms
proof (induction rule: step_from_induct)
  case (stop i w)
  then show ?case by simp
next
  case (splice i w tc w')
  from splice.hyps(1) splice.prems have ne: "r \<noteq> tweens w ! i"
    using nth_in_drop [of i "tweens w"] by auto
  from splice.prems have "r \<notin> set (drop (Suc i) (tweens w))"
    using drop_Suc_subset [of i "tweens w"] by auto
  with splice.hyps(1) have "r \<notin> set (drop i (tweens (splice i (store w (tweens w ! i) tc))))"
    by (simp add: splice_drop)
  from splice.IH [OF this] ne show ?case by simp
next
  case (keep i w tc w')
  from keep.hyps(1) keep.prems have ne: "r \<noteq> tweens w ! i"
    using nth_in_drop [of i "tweens w"] by auto
  from keep.prems have "r \<notin> set (drop (Suc i) (tweens (store w (tweens w ! i) tc)))"
    using drop_Suc_subset [of i "tweens w"] by auto
  from keep.IH [OF this] ne show ?case by simp
qed

lemma step_from_marked:
  assumes "step_from E d i w = Inr w'" and "remove' (heap w r)"
  shows "heap w' r = heap w r"
  using assms
proof (induction rule: step_from_induct)
  case (stop i w)
  then show ?case by simp
next
  case (splice i w tc w')
  then show ?case by (cases "tweens w ! i = r") (auto simp: visit_marked load_def)
next
  case (keep i w tc w')
  then show ?case by (cases "tweens w ! i = r") (auto simp: visit_marked load_def)
qed

lemma step_from_tweens:
  assumes "step_from E d i w = Inr w'" and "distinct (tweens w)"
  shows "tweens w' = take i (tweens w) @ filter (\<lambda>r. \<not> remove' (heap w' r)) (drop i (tweens w))"
  using assms
proof (induction rule: step_from_induct)
  case (stop i w)
  then show ?case by simp
next
  case (splice i w tc w')
  let ?ts = "tweens w" and ?r = "tweens w ! i"
  let ?w1 = "splice i (store w ?r tc)"
  from splice.hyps(1) have dr: "drop i ?ts = ?r # drop (Suc i) ?ts"
    by (simp add: Cons_nth_drop_Suc)
  from splice.prems have "distinct (drop i ?ts)" by simp
  with dr have notin: "?r \<notin> set (drop (Suc i) ?ts)" by simp
  from splice.hyps(1) have tk: "take i (tweens ?w1) = take i ?ts"
    and dp: "drop i (tweens ?w1) = drop (Suc i) ?ts"
    by (simp_all add: splice_take splice_drop)
  from notin dp have "heap w' ?r = heap ?w1 ?r"
    using step_from_frame [OF splice.hyps(4)] by simp
  with splice.hyps(3) have marked: "remove' (heap w' ?r)" by simp
  from splice.prems have "distinct (tweens ?w1)" by (simp add: splice_distinct)
  from splice.IH [OF this] tk dp marked dr show ?case by simp
next
  case (keep i w tc w')
  let ?ts = "tweens w" and ?r = "tweens w ! i"
  let ?w1 = "store w ?r tc"
  from keep.hyps(1) have dr: "drop i ?ts = ?r # drop (Suc i) ?ts"
    by (simp add: Cons_nth_drop_Suc)
  from keep.prems have "distinct (drop i ?ts)" by simp
  with dr have notin: "?r \<notin> set (drop (Suc i) ?ts)" by simp
  then have "heap w' ?r = heap ?w1 ?r"
    using step_from_frame [OF keep.hyps(4)] by simp
  with keep.hyps(3) have unmarked: "\<not> remove' (heap w' ?r)" by simp
  from keep.prems have "distinct (tweens ?w1)" by simp
  from keep.IH [OF this] unmarked dr keep.hyps(1) show ?case
    by (simp add: take_Suc_conv_app_nth)
qed

section \<open>The example worlds\<close>

lemmas world_defs = world0_def TweenManager_def manager_tween_def manager_add_def manager_remove_def
  manager_step_def visit_def splice_def on_tween_def build_def store_def load_def play_def stop_def
  discard_def manager_discard_def collection_def cursor_def property_def to_x10_def

lemmas example_defs = tween_x10_def tween_x10_selected_def world_x10_def x0_def empty_obj_def
  linear_def linear_ext_def

lemma tween_x10_selected_reached:
  "steps (E\<lparr>ease := linear\<rparr>) [d0] (tween_x10, x0) = Inr (tween_x10_selected, x0)"
  by (simp add: example_defs tween_defs step_defs)

lemma const_upd: "(\<lambda>c. a)(k := a) = (\<lambda>c. a)"
  by (simp add: fun_eq_iff)

lemma world_x10_reached:
  "run linear_ext [Create 0, Call 0 to_x10, Frame 0] world0 = Inr world_x10"
  by (simp add: example_defs world_defs tween_defs step_defs step_from.simps const_upd)

section \<open>Sequences of calls keep the invariants\<close>

lemma discard_fold_tweens:
  "tweens (foldl (\<lambda>w' r. if context (heap w' r) = c \<and> r \<noteq> s then manager_remove w' r else w') w xs)
     = tweens w"
  by (induction xs arbitrary: w) (simp_all add: manager_remove_def)

lemma discard_fold_index:
  "index (heap (foldl (\<lambda>w' r. if context (heap w' r) = c \<and> r \<noteq> s then manager_remove w' r else w') w xs) q)
     = index (heap w q)"
  by (induction xs arbitrary: w) (simp_all add: manager_remove_def)

lemma manager_discard_tweens: "tweens (manager_discard w c s) = tweens w"
  by (simp add: manager_discard_def discard_fold_tweens)

lemma manager_discard_index: "index (heap (manager_discard w c s) q) = index (heap w q)"
  by (simp add: manager_discard_def discard_fold_index)

lemma manager_add_tweens:
  "tweens (manager_add w r) = (if r \<in> set (tweens w) then tweens w else tweens w @ [r])"
  by (simp add: manager_add_def Let_def)

lemma manager_add_distinct: "distinct (tweens w) \<Longrightarrow> distinct (tweens (manager_add w r))"
  by (simp add: manager_add_tweens)

lemma manager_step_distinct:
  "manager_step E d w = Inr w' \<Longrightarrow> distinct (tweens w) \<Longrightarrow> distinct (tweens w')"
  unfolding manager_step_def by (erule step_from_distinct) simp

lemma manager_step_index:
  "manager_step E d w = Inr w' \<Longrightarrow> \<forall>r. - 1 \<le> index (heap w r) \<Longrightarrow> \<forall>r. - 1 \<le> index (heap w' r)"
  unfolding manager_step_def by (erule step_from_index) simp

lemma on_tween_tweens: "on_tween w r res = Inr w' \<Longrightarrow> tweens w' = tweens w"
  by (cases res) (auto simp: on_tween_def)

lemma apply_call_tweens:
  "apply_call E w r c = Inr w' \<Longrightarrow> distinct (tweens w) \<Longrightarrow> distinct (tweens w')"
  by (cases c)
    (auto simp: build_def stop_def play_def discard_def manager_remove_def manager_discard_tweens
      manager_add_tweens Let_def dest: on_tween_tweens)

lemma occur_distinct:
  "occur E w ev = Inr w' \<Longrightarrow> distinct (tweens w) \<Longrightarrow> distinct (tweens w')"
  by (cases ev)
    (auto simp: manager_tween_def manager_add_tweens Let_def
      dest: apply_call_tweens manager_step_distinct)

lemma run_distinct:
  "run E evs w = Inr w' \<Longrightarrow> distinct (tweens w) \<Longrightarrow> distinct (tweens w')"
  by (induction evs arbitrary: w) (auto split: sum.splits dest: occur_distinct)

lemma map_sum_Inr: "(map_sum f g x = Inr y) = (\<exists>z. x = Inr z \<and> y = g z)"
  by (cases x) auto

lemma on_tween_index:
  assumes "on_tween w r res = Inr w'" and "\<forall>q. - 1 \<le> index (heap w q)"
    and "\<And>tc. res = Inr tc \<Longrightarrow> - 1 \<le> index (fst tc)"
  shows "- 1 \<le> index (heap w' q)"
  using assms by (cases res) (auto simp: on_tween_def)

lemma apply_call_index:
  assumes "apply_call E w r c = Inr w'" and inv: "\<forall>q. - 1 \<le> index (heap w q)"
  shows "\<forall>q. - 1 \<le> index (heap w' q)"
proof
  fix q
  from inv have r: "- 1 \<le> index (heap w r)" by simp
  show "- 1 \<le> index (heap w' q)"
  proof (cases c)
    case CEnd
    with assms show ?thesis
      by (auto simp: load_def elim!: on_tween_index dest: end_index)
  next
    case CForward
    with assms r show ?thesis
      by (auto simp: load_def elim!: on_tween_index dest: forward_index)
  next
    case CRewind
    with assms r show ?thesis
      by (auto simp: load_def elim!: on_tween_index dest: rewind_index)
  next
    case CNext
    with assms r show ?thesis
      by (auto simp: load_def map_sum_Inr elim!: on_tween_index dest!: next_index)
  next
    case (CStep d)
    with assms r show ?thesis
      by (auto simp: load_def elim!: on_tween_index dest: step_index)
  qed (use assms in \<open>auto simp: build_def tween_defs stop_def play_def discard_def
      manager_remove_def manager_add_def manager_discard_index Let_def\<close>)
qed

lemma occur_index:
  "occur E w ev = Inr w' \<Longrightarrow> \<forall>q. - 1 \<le> index (heap w q) \<Longrightarrow> \<forall>q. - 1 \<le> index (heap w' q)"
  by (cases ev)
    (auto simp: manager_tween_def manager_add_def Tween_def Let_def
      dest: apply_call_index manager_step_index)

lemma run_index:
  "run E evs w = Inr w' \<Longrightarrow> \<forall>q. - 1 \<le> index (heap w q) \<Longrightarrow> \<forall>q. - 1 \<le> index (heap w' q)"
proof (induction evs arbitrary: w)
  case Nil
  then show ?case by simp
next
  case (Cons ev evs)
  from Cons.prems(1) obtain w1 where 1: "occur E w ev = Inr w1" and 2: "run E evs w1 = Inr w'"
    by (auto split: sum.splits)
  from occur_index [OF 1 Cons.prems(2)] have "\<forall>q. - 1 \<le> index (heap w1 q)" .
  from Cons.IH [OF 2 this] show ?case .
qed

section \<open>The bounds of the cursor (C7)\<close>

text \<open>
  C7 as stated: the cursor never exceeds the length of the queue. A tween that has
  finished keeps its last action as \<^verbatim>\<open>current\<close>, and every later completion calls
  \<^verbatim>\<open>next\<close> again, which increments the cursor once more. The manager creates a tween,
  \<^verbatim>\<open>to({x: 10}, 1000)\<close> queues one action, a first frame selects it and a frame of 1000
  finishes it (cursor 1). After \<^verbatim>\<open>play()\<close> the next frame of 1000 leaves the cursor at
  2, with one action in the queue.
\<close>

theorem C7_index_exceeds_length:
  "cursor 0 (run linear_ext [Create 0, Call 0 to_x10, Frame 0, Frame 1000, Call 0 CPlay, Frame 1000]
      world0) = Inr (2, 1)"
  by (simp add: example_defs world_defs tween_defs step_defs step_from.simps)

text \<open>
  Reading \<^verbatim>\<open>this.actions[this.index]\<close> outside the queue gives an undefined \<^verbatim>\<open>current\<close>,
  and \<^verbatim>\<open>this.current[0]\<close> then throws the TypeError: it is the only TypeError of
  \<^verbatim>\<open>next\<close>, the other error comes from the colours.
\<close>

lemma decompose_error: "decompose E v target = Inl e \<Longrightarrow> e = ColorError"
  by (cases target)
    (auto simp: decompose_color_def split: if_splits option.splits prod.splits)

lemma decompose_all_error: "decompose_all E c kvs = Inl e \<Longrightarrow> e = ColorError"
  by (induction kvs) (auto split: sum.splits dest: decompose_error)

lemma select_TypeError:
  "(select E c t = Inl TypeError) =
     (\<not> (0 \<le> index t \<and> index t < int (length (actions t))))"
  by (auto simp: select_def action_at_def Let_def
      split: option.splits prod.splits sum.splits dest: decompose_all_error)

lemma next_TypeError:
  "- 1 \<le> index t \<Longrightarrow> (next E c t = Inl TypeError) = (looped t \<and> actions t = [])"
  by (auto simp: next_def Let_def select_TypeError)

lemma next_finishes:
  "int (length (actions t)) \<le> index t + 1 \<Longrightarrow> \<not> looped t \<Longrightarrow>
   next E c t =
     Inr (t\<lparr>delta := Some (Fin 0), index := index t + 1,
            emitted := emitted t @ [''finished'', ''finish''],
            finished := True, remove' := True\<rparr>)"
  by (simp add: next_def Let_def)

lemma next_looped_empty:
  "- 1 \<le> index t \<Longrightarrow> looped t \<Longrightarrow> actions t = [] \<Longrightarrow> next E c t = Inl TypeError"
  by (simp add: next_TypeError)

text \<open>
  C7, amended: from a world in which every cursor is at least -1, as in a new manager,
  and over every sequence of calls of the methods of tweens, frames of the manager and
  creations of tweens in which no call throws, no cursor drops below -1. The
  cursor has no upper bound: on a tween that is not looped, \<^verbatim>\<open>next\<close> at or beyond the end
  of the queue always returns, with the cursor one more than before and the tween
  finished and marked, and reads no action (\<^verbatim>\<open>current\<close> stays). On every tween with a
  cursor of at least -1, other than a looped tween with an empty queue, \<^verbatim>\<open>next\<close> never
  reads outside the queue: the TypeError of such a read does not occur, and when \<^verbatim>\<open>next\<close>
  returns after a read, the queue is unchanged, the cursor is the incremented one or 0,
  lies inside the queue, and \<^verbatim>\<open>current\<close> is the action there.
\<close>

theorem C7_cursor_bounds:
  "((\<forall>r. - 1 \<le> index (heap w r)) \<and> run E evs w = Inr w' \<longrightarrow>
      (\<forall>r. - 1 \<le> index (heap w' r))) \<and>
   (select E c t = Inl TypeError) =
      (\<not> (0 \<le> index t \<and> index t < int (length (actions t)))) \<and>
   (- 1 \<le> index t \<and> \<not> (looped t \<and> actions t = []) \<longrightarrow> next E c t \<noteq> Inl TypeError) \<and>
   (int (length (actions t)) \<le> index t + 1 \<and> \<not> looped t \<longrightarrow>
      next E c t =
        Inr (t\<lparr>delta := Some (Fin 0), index := index t + 1,
               emitted := emitted t @ [''finished'', ''finish''],
               finished := True, remove' := True\<rparr>)) \<and>
   (next E c t = Inr t' \<longrightarrow>
      actions t' = actions t \<and>
      (if int (length (actions t)) \<le> index t + 1 \<and> \<not> looped t
       then index t' = index t + 1 \<and> current t' = current t \<and> finished t' \<and> remove' t'
       else (index t' = index t + 1 \<or> index t' = 0) \<and>
            0 \<le> index t' \<and> index t' < int (length (actions t)) \<and>
            current t' = Some (actions t ! nat (index t'))))"
proof -
  have 1: "(\<forall>r. - 1 \<le> index (heap w r)) \<and> run E evs w = Inr w' \<longrightarrow>
      (\<forall>r. - 1 \<le> index (heap w' r))"
    by (blast dest: run_index)
  have 2: "(select E c t = Inl TypeError) =
      (\<not> (0 \<le> index t \<and> index t < int (length (actions t))))"
    by (rule select_TypeError)
  have 3: "- 1 \<le> index t \<and> \<not> (looped t \<and> actions t = []) \<longrightarrow> next E c t \<noteq> Inl TypeError"
    by (simp add: next_TypeError)
  have 4: "int (length (actions t)) \<le> index t + 1 \<and> \<not> looped t \<longrightarrow>
      next E c t =
        Inr (t\<lparr>delta := Some (Fin 0), index := index t + 1,
               emitted := emitted t @ [''finished'', ''finish''],
               finished := True, remove' := True\<rparr>)"
    by (simp add: next_finishes)
  have 5: "next E c t = Inr t' \<longrightarrow>
      actions t' = actions t \<and>
      (if int (length (actions t)) \<le> index t + 1 \<and> \<not> looped t
       then index t' = index t + 1 \<and> current t' = current t \<and> finished t' \<and> remove' t'
       else (index t' = index t + 1 \<or> index t' = 0) \<and>
            0 \<le> index t' \<and> index t' < int (length (actions t)) \<and>
            current t' = Some (actions t ! nat (index t')))"
  proof
    assume "next E c t = Inr t'"
    from next_cases [OF this]
    show "actions t' = actions t \<and>
      (if int (length (actions t)) \<le> index t + 1 \<and> \<not> looped t
       then index t' = index t + 1 \<and> current t' = current t \<and> finished t' \<and> remove' t'
       else (index t' = index t + 1 \<or> index t' = 0) \<and>
            0 \<le> index t' \<and> index t' < int (length (actions t)) \<and>
            current t' = Some (actions t ! nat (index t')))"
      by (auto split: if_splits)
  qed
  from 1 2 3 4 5 show ?thesis by (intro conjI)
qed

text \<open>The hypotheses of the amended C7 hold in the run above and for \<^verbatim>\<open>next\<close> on the
  tween of \<^verbatim>\<open>to({x: 10}, 1000)\<close>, before and after its action was selected.\<close>

theorem C7_cursor_bounds_witness:
  "(\<forall>r. - 1 \<le> index (heap world0 r)) \<and>
   (\<exists>w'. run linear_ext [Create 0, Call 0 to_x10, Frame 0, Frame 1000, Call 0 CPlay, Frame 1000]
            world0 = Inr w' \<and> index (heap w' 0) = 2 \<and> (\<forall>r. - 1 \<le> index (heap w' r))) \<and>
   - 1 \<le> index tween_x10 \<and> \<not> looped tween_x10 \<and> actions tween_x10 \<noteq> [] \<and>
   next linear_ext x0 tween_x10 \<noteq> Inl TypeError \<and>
   (\<exists>t'. next linear_ext x0 tween_x10 = Inr t' \<and> index t' = 0 \<and>
      current t' = Some (actions t' ! 0)) \<and>
   int (length (actions tween_x10_selected)) \<le> index tween_x10_selected + 1 \<and>
   \<not> looped tween_x10_selected \<and>
   (\<exists>t'. next linear_ext x0 tween_x10_selected = Inr t' \<and> index t' = 1 \<and> finished t' \<and>
      current t' = current tween_x10_selected)"
proof -
  let ?evs = "[Create 0, Call 0 to_x10, Frame 0, Frame 1000, Call 0 CPlay, Frame 1000]"
  note C7 = C7_cursor_bounds [of _ linear_ext _ _ x0]
  have h: "\<forall>r. - 1 \<le> index (heap world0 r)"
    by (simp add: world0_def TweenManager_def Tween_def)
  have "\<exists>w'. run linear_ext ?evs world0 = Inr w' \<and> index (heap w' 0) = 2"
    by (simp add: example_defs world_defs tween_defs step_defs step_from.simps)
  then obtain w' where r: "run linear_ext ?evs world0 = Inr w'" and i: "index (heap w' 0) = 2"
    by blast
  from C7 [of world0 ?evs w'] h r
  have a: "\<forall>r. - 1 \<le> index (heap w' r)" by blast
  have p: "- 1 \<le> index tween_x10" "\<not> looped tween_x10" "actions tween_x10 \<noteq> []"
    by (simp_all add: example_defs tween_defs)
  from C7 [of world0 "[]" world0 tween_x10] p
  have q: "next linear_ext x0 tween_x10 \<noteq> Inl TypeError" by blast
  have "\<exists>t'. next linear_ext x0 tween_x10 = Inr t'"
    by (simp add: example_defs tween_defs step_defs)
  then obtain t1 where n1: "next linear_ext x0 tween_x10 = Inr t1" by blast
  from C7 [of world0 "[]" world0 tween_x10 t1] n1
  have b: "index t1 = 0 \<and> current t1 = Some (actions t1 ! 0)"
    by (simp add: example_defs tween_defs split: if_splits)
  have s: "int (length (actions tween_x10_selected)) \<le> index tween_x10_selected + 1"
    "\<not> looped tween_x10_selected"
    by (simp_all add: example_defs tween_defs)
  from C7 [of world0 "[]" world0 tween_x10_selected] s
  obtain t2 where n2: "next linear_ext x0 tween_x10_selected = Inr t2" by blast
  from C7 [of world0 "[]" world0 tween_x10_selected t2] n2
  have c: "index t2 = 1 \<and> finished t2 \<and> current t2 = current tween_x10_selected"
    by (simp add: example_defs tween_defs split: if_splits)
  from h r i a p q n1 b s n2 c show ?thesis by blast
qed

section \<open>A tween is in the collection at most once (C8)\<close>

text \<open>
  C8: in a collection without duplicates, \<^verbatim>\<open>TweenManager.add\<close> clears the mark of the
  tween and appends the tween only if it is not there, so adding a tween that is present
  changes nothing but its mark, and adding twice is adding once. The collection stays
  without duplicates under \<^verbatim>\<open>add\<close>, \<^verbatim>\<open>remove\<close>, \<^verbatim>\<open>discard\<close>, \<^verbatim>\<open>tween\<close> and \<^verbatim>\<open>step\<close>
  of the manager, and under every sequence of calls, frames and creations that returns.
\<close>

theorem C8_at_most_once:
  assumes "distinct (tweens w)"
  shows "manager_add w r =
           w\<lparr>heap := (heap w)(r := (heap w r)\<lparr>remove' := False\<rparr>),
             tweens := (if r \<in> set (tweens w) then tweens w else tweens w @ [r])\<rparr> \<and>
         manager_add (manager_add w r) r = manager_add w r \<and>
         distinct (tweens (manager_add w r)) \<and>
         distinct (tweens (manager_remove w r)) \<and>
         distinct (tweens (manager_discard w c s)) \<and>
         distinct (tweens (fst (manager_tween w c))) \<and>
         (\<forall>w'. manager_step E d w = Inr w' \<longrightarrow> distinct (tweens w')) \<and>
         (\<forall>w'. run E evs w = Inr w' \<longrightarrow> distinct (tweens w'))"
proof -
  have 1: "manager_add w r =
           w\<lparr>heap := (heap w)(r := (heap w r)\<lparr>remove' := False\<rparr>),
             tweens := (if r \<in> set (tweens w) then tweens w else tweens w @ [r])\<rparr>"
    by (simp add: manager_add_def Let_def)
  have 2: "manager_add (manager_add w r) r = manager_add w r"
    by (simp add: manager_add_def Let_def)
  from assms have 3: "distinct (tweens (manager_add w r))" by (rule manager_add_distinct)
  from assms have 4: "distinct (tweens (manager_remove w r))" by (simp add: manager_remove_def)
  from assms have 5: "distinct (tweens (manager_discard w c s))"
    by (simp add: manager_discard_tweens)
  from assms have 6: "distinct (tweens (fst (manager_tween w c)))"
    by (simp add: manager_tween_def manager_add_tweens Let_def)
  from assms have 7: "\<forall>w'. manager_step E d w = Inr w' \<longrightarrow> distinct (tweens w')"
    by (blast dest: manager_step_distinct)
  from assms have 8: "\<forall>w'. run E evs w = Inr w' \<longrightarrow> distinct (tweens w')"
    by (blast dest: run_distinct)
  from 1 2 3 4 5 6 7 8 show ?thesis by blast
qed

text \<open>The hypothesis of C8 holds in the world with one animating tween.\<close>

theorem C8_at_most_once_witness:
  "distinct (tweens world_x10) \<and>
   tweens world_x10 = [0] \<and>
   tweens (manager_add world_x10 0) = [0] \<and>
   tweens (manager_add world_x10 1) = [0, 1] \<and>
   distinct (tweens (manager_add world_x10 0)) \<and>
   distinct (tweens (fst (manager_tween world_x10 0))) \<and>
   (\<exists>w'. manager_step linear_ext 1000 world_x10 = Inr w' \<and> distinct (tweens w')) \<and>
   (\<exists>w'. run linear_ext [Frame 1000, Call 0 CPlay, Create 0, Call 1 CDiscard, Frame 0] world_x10
            = Inr w' \<and> distinct (tweens w'))"
proof -
  let ?evs = "[Frame 1000, Call 0 CPlay, Create 0, Call 1 CDiscard, Frame 0]"
  have d: "distinct (tweens world_x10)" and t: "tweens world_x10 = [0]"
    by (simp_all add: example_defs world_defs)
  have "\<exists>w'. manager_step linear_ext 1000 world_x10 = Inr w'"
    by (simp add: example_defs world_defs tween_defs step_defs step_from.simps)
  then obtain w1 where s: "manager_step linear_ext 1000 world_x10 = Inr w1" by blast
  have "\<exists>w'. run linear_ext ?evs world_x10 = Inr w'"
    by (simp add: example_defs world_defs tween_defs step_defs step_from.simps)
  then obtain w2 where r: "run linear_ext ?evs world_x10 = Inr w2" by blast
  note C8 = C8_at_most_once [OF d, of _ 0 0 linear_ext 1000 ?evs]
  from C8 [of 0] t have a: "tweens (manager_add world_x10 0) = [0]" by simp
  from C8 [of 1] t have b: "tweens (manager_add world_x10 1) = [0, 1]" by simp
  from C8 [of 0] s r d t a b show ?thesis by blast
qed

section \<open>When a marked tween leaves the collection (C2)\<close>

text \<open>
  C2 as stated: a tween marked for removal leaves the collection only at the start of
  the next step of the manager, never inside the step during which it was marked. The
  loop of \<^verbatim>\<open>TweenManager.step\<close> tests \<^verbatim>\<open>_remove\<close> right after it has stepped the tween:
  the tween of \<^verbatim>\<open>to({x: 10}, 1000)\<close> is in the collection after the frame that selects
  its action, and the frame of 1000 that finishes it returns with an empty collection.
\<close>

theorem C2_removed_in_the_same_step:
  "collection (run linear_ext [Create 0, Call 0 to_x10, Frame 0] world0) = Inr [0] \<and>
   collection (run linear_ext [Create 0, Call 0 to_x10, Frame 0, Frame 1000] world0) = Inr []"
  by (simp add: example_defs world_defs tween_defs step_defs step_from.simps)

lemma manager_step_tweens:
  assumes "manager_step E d w = Inr w'" and "distinct (tweens w)"
  shows "tweens w' = filter (\<lambda>r. \<not> remove' (heap w' r)) (tweens w)"
  using step_from_tweens [of E d 0 "w\<lparr>manager_delta := manager_delta w + d\<rparr>" w'] assms
  by (simp add: manager_step_def)

lemma manager_step_marked:
  assumes "manager_step E d w = Inr w'" and "remove' (heap w r)"
  shows "heap w' r = heap w r"
  using step_from_marked [of E d 0 "w\<lparr>manager_delta := manager_delta w + d\<rparr>" w' r] assms
  by (simp add: manager_step_def)

text \<open>
  C2, amended, for tweens on which no event listener is registered (\<^verbatim>\<open>trigger\<close> reaches
  nobody): marking a tween (\<^verbatim>\<open>remove\<close> and \<^verbatim>\<open>discard\<close> of the manager, \<^verbatim>\<open>stop\<close> and
  \<^verbatim>\<open>discard\<close> of a tween) leaves the collection as it is. A tween that is marked when a
  step of the manager begins is removed by that step without being stepped, its object is
  unchanged. A tween of the collection that becomes marked during the step, by finishing
  while it is stepped, is removed inside that same step. The tweens that are unmarked
  when the step returns stay, in their order. All this holds for a collection without
  duplicates and a step that returns. A listener of \<^verbatim>\<open>finished\<close> or \<^verbatim>\<open>finish\<close> that marks
  a tween which the loop has already passed would leave that tween in the collection
  until the next step; the statement is not about such listeners.
\<close>

theorem C2_removal_by_the_step_loop:
  "tweens (manager_remove w r) = tweens w \<and>
   tweens (fst (stop w r)) = tweens w \<and>
   tweens (manager_discard w c s) = tweens w \<and>
   tweens (fst (discard w r)) = tweens w \<and>
   (distinct (tweens w) \<and> manager_step E d w = Inr w' \<longrightarrow>
      (\<forall>q. remove' (heap w q) \<longrightarrow> q \<notin> set (tweens w') \<and> heap w' q = heap w q) \<and>
      (\<forall>q. q \<in> set (tweens w) \<and> \<not> remove' (heap w q) \<and> remove' (heap w' q) \<longrightarrow>
         q \<notin> set (tweens w')) \<and>
      tweens w' = filter (\<lambda>q. \<not> remove' (heap w' q)) (tweens w))"
proof -
  have marks: "tweens (manager_remove w r) = tweens w \<and>
      tweens (fst (stop w r)) = tweens w \<and>
      tweens (manager_discard w c s) = tweens w \<and>
      tweens (fst (discard w r)) = tweens w"
    by (simp add: manager_remove_def stop_def discard_def manager_discard_tweens)
  have loop: "(\<forall>q. remove' (heap w q) \<longrightarrow> q \<notin> set (tweens w') \<and> heap w' q = heap w q) \<and>
      (\<forall>q. q \<in> set (tweens w) \<and> \<not> remove' (heap w q) \<and> remove' (heap w' q) \<longrightarrow>
         q \<notin> set (tweens w')) \<and>
      tweens w' = filter (\<lambda>q. \<not> remove' (heap w' q)) (tweens w)"
    if d: "distinct (tweens w)" and s: "manager_step E d w = Inr w'"
  proof -
    have f: "tweens w' = filter (\<lambda>q. \<not> remove' (heap w' q)) (tweens w)"
      by (rule manager_step_tweens [OF s d])
    have g: "q \<notin> set (tweens w')" if "remove' (heap w' q)" for q
    proof -
      from that have "q \<notin> set (filter (\<lambda>q. \<not> remove' (heap w' q)) (tweens w))" by simp
      with f show ?thesis by simp
    qed
    have "q \<notin> set (tweens w') \<and> heap w' q = heap w q" if m: "remove' (heap w q)" for q
    proof -
      have h: "heap w' q = heap w q" by (rule manager_step_marked [OF s m])
      with m have "remove' (heap w' q)" by simp
      with g h show ?thesis by simp
    qed
    with f g show ?thesis by blast
  qed
  from marks loop show ?thesis by blast
qed

text \<open>The hypotheses of the amended C2 hold in the world with an
  animating tween and a stopped one: the frame of 1000 finishes the first and removes
  both.\<close>

theorem C2_removal_by_the_step_loop_witness:
  "distinct (tweens world_stopped) \<and> tweens world_stopped = [0, 1] \<and>
   remove' (heap world_stopped 1) \<and> \<not> remove' (heap world_stopped 0) \<and>
   0 \<in> set (tweens world_stopped) \<and>
   (\<exists>w'. manager_step linear_ext 1000 world_stopped = Inr w' \<and> tweens w' = [] \<and>
      remove' (heap w' 0) \<and> 0 \<notin> set (tweens w') \<and> 1 \<notin> set (tweens w') \<and>
      heap w' 1 = heap world_stopped 1)"
proof -
  have d: "distinct (tweens world_stopped)" and t: "tweens world_stopped = [0, 1]"
    and m: "remove' (heap world_stopped 1)" and u: "\<not> remove' (heap world_stopped 0)"
    by (simp_all add: world_stopped_def example_defs world_defs tween_defs)
  have "\<exists>w'. manager_step linear_ext 1000 world_stopped = Inr w' \<and> remove' (heap w' 0)"
    by (simp add: world_stopped_def example_defs world_defs tween_defs step_defs
        step_from.simps)
  then obtain w' where s: "manager_step linear_ext 1000 world_stopped = Inr w'"
    and f: "remove' (heap w' 0)" by blast
  note C2 = C2_removal_by_the_step_loop [of world_stopped 0 0 0 linear_ext 1000 w']
  from C2 d s have l: "tweens w' = filter (\<lambda>q. \<not> remove' (heap w' q)) (tweens world_stopped)"
    and k: "heap w' 1 = heap world_stopped 1"
    using m by blast+
  from l t f k m have e: "tweens w' = []" by simp
  from t have "0 \<in> set (tweens world_stopped)" by simp
  with e d t m u s f k show ?thesis by auto
qed

section \<open>\<^verbatim>\<open>forward\<close> (C9)\<close>

text \<open>
  C9 as stated: \<^verbatim>\<open>forward()\<close> completes the current action and leaves the cursor on it.
  \<^verbatim>\<open>forward\<close> sets \<^verbatim>\<open>delta\<close> to the duration and calls \<^verbatim>\<open>step(0)\<close>; \<^verbatim>\<open>doAnimate\<close> then
  reaches the progress 1 and calls \<^verbatim>\<open>next\<close>, as it does for every completed action. With
  \<^verbatim>\<open>to({x: 10}, 1000).to({x: 20}, 1000)\<close> and the first action selected (cursor 0 of 2),
  \<^verbatim>\<open>forward()\<close> writes 10 to \<open>x\<close> and returns with the cursor at 1, on the second action.
\<close>

theorem C9_forward_advances:
  "cursor 0 (run linear_ext [Create 0, Call 0 to_x10, Call 0 to_x20, Frame 0] world0) = Inr (0, 2) \<and>
   cursor 0 (run linear_ext [Create 0, Call 0 to_x10, Call 0 to_x20, Frame 0, Call 0 CForward]
     world0) = Inr (1, 2) \<and>
   property 0 ''x'' (run linear_ext [Create 0, Call 0 to_x10, Call 0 to_x20, Frame 0, Call 0 CForward]
     world0) = Inr (Number (Fin 10))"
  by (simp add: example_defs world_defs to_x20_def tween_defs step_defs step_from.simps forward_def)

lemma select_progress: "select E c t = Inr t' \<Longrightarrow> progress t' = progress t"
  by (auto simp: select_def Let_def split: option.splits if_splits sum.splits prod.splits)

lemma next_progress: "next E c t = Inr t' \<Longrightarrow> progress t' = progress t"
  by (auto simp: next_def Let_def split: if_splits dest!: select_progress)

lemma forward_unfold:
  assumes "currentAction t = Some Animate" and "current t \<noteq> None"
    and "duration t = Some (Fin a)" and "a \<noteq> 0"
  shows "forward E (t, c) =
           map_sum id (\<lambda>t'. (t', foldl (write_slot E (ease E (Fin 1) (easing t))) c (slots t)))
             (next E (foldl (write_slot E (ease E (Fin 1) (easing t))) c (slots t))
                (t\<lparr>delta := Some (Fin a), progress := Some (Fin 1)\<rparr>))"
  using assms
  by (auto simp: forward_def step_def doAnimate_def nmin_def Let_def split: sum.splits)

text \<open>
  C9, amended: on a tween whose current action is an animation (its duration is not 0,
  as for every action queued by \<^verbatim>\<open>add\<close>), \<^verbatim>\<open>forward()\<close> writes to the context the
  values of the progress 1, each slot at the factor that the easing gives for 1, and then
  runs \<^verbatim>\<open>next\<close> on the tween: when it returns, the progress is 1, the context holds
  those values, and the cursor is one more than before the call, or 0 on a looped tween
  that wrapped around.
\<close>

theorem C9_forward_completes_then_advances:
  assumes "currentAction t = Some Animate" and "current t \<noteq> None"
    and "duration t = Some (Fin a)" and "a \<noteq> 0"
  shows "forward E (t, c) =
           map_sum id (\<lambda>t'. (t', foldl (write_slot E (ease E (Fin 1) (easing t))) c (slots t)))
             (next E (foldl (write_slot E (ease E (Fin 1) (easing t))) c (slots t))
                (t\<lparr>delta := Some (Fin a), progress := Some (Fin 1)\<rparr>)) \<and>
         (\<forall>t' c'. forward E (t, c) = Inr (t', c') \<longrightarrow>
            c' = foldl (write_slot E (ease E (Fin 1) (easing t))) c (slots t) \<and>
            progress t' = Some (Fin 1) \<and>
            (index t' = index t + 1 \<or> looped t \<and> index t' = 0))"
proof -
  let ?c = "foldl (write_slot E (ease E (Fin 1) (easing t))) c (slots t)"
  let ?t = "t\<lparr>delta := Some (Fin a), progress := Some (Fin 1)\<rparr>"
  have u: "forward E (t, c) = map_sum id (\<lambda>t'. (t', ?c)) (next E ?c ?t)"
    by (rule forward_unfold [OF assms])
  have "c' = ?c \<and> progress t' = Some (Fin 1) \<and>
      (index t' = index t + 1 \<or> looped t \<and> index t' = 0)"
    if f: "forward E (t, c) = Inr (t', c')" for t' c'
  proof -
    from f u have n: "next E ?c ?t = Inr t'" and c: "c' = ?c"
      by (auto simp: map_sum_Inr)
    from next_progress [OF n] have p: "progress t' = Some (Fin 1)" by simp
    from next_cases [OF n] have "index t' = index t + 1 \<or> looped t \<and> index t' = 0"
      by (auto split: if_splits)
    with c p show ?thesis by blast
  qed
  with u show ?thesis by blast
qed

text \<open>The hypotheses of the amended C9 hold for the tween of
  \<^verbatim>\<open>to({x: 10}, 1000)\<close> with its action selected: \<^verbatim>\<open>forward\<close> writes 10 and moves the
  cursor from 0 to 1.\<close>

theorem C9_forward_completes_then_advances_witness:
  "currentAction tween_x10_selected = Some Animate \<and>
   current tween_x10_selected \<noteq> None \<and>
   duration tween_x10_selected = Some (Fin 1000) \<and> (1000 :: real) \<noteq> 0 \<and>
   index tween_x10_selected = 0 \<and>
   value_of ''x'' (forward linear_ext (tween_x10_selected, x0)) = Inr (Number (Fin 10)) \<and>
   index_of (forward linear_ext (tween_x10_selected, x0)) = Inr 1"
proof -
  have h: "currentAction tween_x10_selected = Some Animate"
    "current tween_x10_selected \<noteq> None"
    "duration tween_x10_selected = Some (Fin 1000)" "(1000 :: real) \<noteq> 0"
    and i: "index tween_x10_selected = 0"
    by (simp_all add: example_defs)
  have "\<exists>t' c'. forward linear_ext (tween_x10_selected, x0) = Inr (t', c')"
    by (simp add: forward_def example_defs tween_defs step_defs)
  then obtain t' c' where f: "forward linear_ext (tween_x10_selected, x0) = Inr (t', c')"
    by blast
  from C9_forward_completes_then_advances [OF h, of linear_ext x0] f
  have c: "c' = foldl (write_slot linear_ext (ease linear_ext (Fin 1) (easing tween_x10_selected)))
      x0 (slots tween_x10_selected)"
    and x: "index t' = index tween_x10_selected + 1 \<or>
      looped tween_x10_selected \<and> index t' = 0"
    by blast+
  from c have "c' ''x'' = Number (Fin 10)"
    by (simp add: example_defs tween_defs js_add_def js_mul_def)
  moreover from x have "index t' = 1" by (simp add: example_defs tween_defs)
  ultimately show ?thesis using h i f by (simp add: observe_defs)
qed

end
